theory Spec2Isabelle
  imports Complex_Main "HOL-Library.AList" "HOL-Library.Char_ord" "HOL-Library.List_Lexorder"
begin

section \<open>The item comparison service (internal/services/item_service_impl.go)\<close>

text \<open>
  The service layer of the item comparison API: \<open>GetAllItems\<close>, \<open>GetItemByID\<close> and
  \<open>CompareItems\<close> with the helpers \<open>generateComparison\<close>, \<open>findCommonSpecs\<close>,
  \<open>findUniqueSpecs\<close>, \<open>uniqueIDs\<close> and \<open>missingItemIDs\<close>, together with the domain
  errors of internal/errors/errors.go and the data of internal/models.

  Conventions of the embedding.
  \<^item> \<open>int64\<close> identifiers are \<open>int\<close>: the service only copies and compares them.
  \<^item> \<open>float64\<close> prices and ratings are \<open>real\<close> (no NaN, no infinities); nothing proved
    below depends on them.
  \<^item> A Go \<open>map\<close> is an association list read through \<open>map_of\<close>. Ranging over a map
    visits every key once, in an order Go leaves open; the model visits the keys in the
    order of the list. Every result that depends on such a loop is sorted by the code
    afterwards.
  \<^item> \<open>string\<close> is a list of bytes, ordered bytewise and lexicographically, as Go
    compares strings; \<open>sort.Strings\<close> is \<open>sort\<close> at that order.
  \<^item> A repository method returning \<open>(value, error)\<close> is a function into
    \<open>store_error + value\<close>; the calls a service method makes are returned as a trace
    next to its result.
\<close>

subsection \<open>Models (internal/models)\<close>

type_synonym 'v Specifications = "(string \<times> 'v) list"

record 'v Item =
  ID :: int
  Name :: string
  ImageURL :: string
  Description :: string
  Price :: real
  Rating :: real
  Specifications :: "'v Specifications"

record PriceRange =
  Min_PriceRange :: real
  Max_PriceRange :: real

record RatingRange =
  Min_RatingRange :: real
  Max_RatingRange :: real

record ComparisonDetails =
  PriceRange :: PriceRange
  RatingRange :: RatingRange
  CommonSpecs :: "string list"
  UniqueSpecs :: "(int \<times> string list) list"

record 'v CompareResponse =
  Items :: "'v Item list"
  Comparison :: ComparisonDetails

text \<open>The keys a \<open>range\<close> loop over a specification map visits: each key once.\<close>

definition spec_keys :: "'v Specifications \<Rightarrow> string list" where
  "spec_keys s = remdups (map fst s)"

subsection \<open>Repository errors and the repository interface\<close>

text \<open>
  The errors a repository returns: \<open>repositories.ErrNotFound\<close>, the context's
  \<open>context.Canceled\<close> and \<open>context.DeadlineExceeded\<close>, any other sentinel
  (\<open>sql.ErrConnDone\<close>, ...) by its text, and \<open>fmt.Errorf("...: %w", err)\<close> wrapping
  another error. \<open>errors_Is\<close> is \<open>errors.Is\<close>: it walks the chain of wrapped errors.
\<close>

datatype store_error =
    ErrNotFound
  | Canceled
  | DeadlineExceeded
  | Sentinel string
  | Wrapf string store_error

fun errors_Is :: "store_error \<Rightarrow> store_error \<Rightarrow> bool" where
  "errors_Is (Wrapf msg inner) target = (Wrapf msg inner = target \<or> errors_Is inner target)"
| "errors_Is err target = (err = target)"

record ('ctx, 'v) ItemRepository =
  GetAll :: "'ctx \<Rightarrow> store_error + 'v Item list"
  GetByID :: "'ctx \<Rightarrow> int \<Rightarrow> store_error + 'v Item"
  GetByIDs :: "'ctx \<Rightarrow> int list \<Rightarrow> store_error + 'v Item list"

datatype store_call = CallGetAll | CallGetByID int | CallGetByIDs "int list"

subsection \<open>Domain errors (internal/errors/errors.go)\<close>

datatype ErrorCode =
    ErrorCodeNotFound
  | ErrorCodeBadRequest
  | ErrorCodeInternalServer
  | ErrorCodeValidation
  | ErrorCodeTooManyRequests

record DomainError =
  Code :: ErrorCode
  Message :: string
  Err :: "store_error option"

definition NewDomainError :: "ErrorCode \<Rightarrow> string \<Rightarrow> store_error option \<Rightarrow> DomainError" where
  "NewDomainError code message err = \<lparr>Code = code, Message = message, Err = err\<rparr>"

definition Unwrap :: "DomainError \<Rightarrow> store_error option" where
  "Unwrap e = Err e"

text \<open>The \<open>%v\<close> verb of \<open>fmt\<close> on the values the service formats: a nil interface,
  an \<open>int64\<close> (decimal) and a slice of them (\<open>[1 2 3]\<close>).\<close>

datatype fmt_value = Nil | Int64 int | Int64s "int list"

definition digit_char :: "nat \<Rightarrow> char" where
  "digit_char d = char_of (48 + d)"

function fmt_nat :: "nat \<Rightarrow> string" where
  "fmt_nat n = (if n < 10 then [digit_char n] else fmt_nat (n div 10) @ [digit_char (n mod 10)])"
  by pat_completeness auto
termination
  by (relation "measure (\<lambda>n. n)") auto

definition fmt_int :: "int \<Rightarrow> string" where
  "fmt_int i = (if i < 0 then CHR ''-'' # fmt_nat (nat (- i)) else fmt_nat (nat i))"

fun join_space :: "string list \<Rightarrow> string" where
  "join_space [] = []"
| "join_space [s] = s"
| "join_space (s # t # ss) = s @ '' '' @ join_space (t # ss)"

fun fmt_v :: "fmt_value \<Rightarrow> string" where
  "fmt_v Nil = ''<nil>''"
| "fmt_v (Int64 i) = fmt_int i"
| "fmt_v (Int64s is) = ''['' @ join_space (map fmt_int is) @ '']''"

definition NewNotFoundError :: "string \<Rightarrow> fmt_value \<Rightarrow> DomainError" where
  "NewNotFoundError resource id' =
     NewDomainError ErrorCodeNotFound (resource @ '' with id '' @ fmt_v id' @ '' not found'') None"

definition NewBadRequestError :: "string \<Rightarrow> store_error option \<Rightarrow> DomainError" where
  "NewBadRequestError message err = NewDomainError ErrorCodeBadRequest message err"

definition NewValidationError :: "string \<Rightarrow> store_error option \<Rightarrow> DomainError" where
  "NewValidationError message err = NewDomainError ErrorCodeValidation message err"

definition NewInternalServerError :: "string \<Rightarrow> store_error option \<Rightarrow> DomainError" where
  "NewInternalServerError message err = NewDomainError ErrorCodeInternalServer message err"

subsection \<open>The service\<close>

text \<open>The two accented letters of the service's messages, as their UTF-8 bytes.\<close>

definition a_acute :: string where
  "a_acute = [CHR 0xC3, CHR 0xA1]"

definition o_acute :: string where
  "o_acute = [CHR 0xC3, CHR 0xB3]"

definition GetAllItems ::
  "('ctx, 'v) ItemRepository \<Rightarrow> 'ctx \<Rightarrow> store_call list \<times> (DomainError + 'v Item list)" where
  "GetAllItems repo ctx =
     (case GetAll repo ctx of
        Inl err \<Rightarrow>
          ([CallGetAll], Inl (NewInternalServerError ''error al obtener los items'' (Some err)))
      | Inr items \<Rightarrow> ([CallGetAll], Inr items))"

definition GetItemByID ::
  "('ctx, 'v) ItemRepository \<Rightarrow> 'ctx \<Rightarrow> int \<Rightarrow> store_call list \<times> (DomainError + 'v Item)" where
  "GetItemByID repo ctx id' =
     (if id' \<le> 0 then ([], Inl (NewValidationError (''ID inv'' @ a_acute @ ''lido'') None))
      else
        (case GetByID repo ctx id' of
           Inl err \<Rightarrow>
             (if errors_Is err ErrNotFound
              then ([CallGetByID id'], Inl (NewNotFoundError ''Item'' (Int64 id')))
              else ([CallGetByID id'],
                    Inl (NewInternalServerError ''error al obtener el item'' (Some err))))
         | Inr item \<Rightarrow> ([CallGetByID id'], Inr item)))"

text \<open>\<open>uniqueIDs\<close>: the loop over \<open>ids\<close> with the map \<open>seen\<close> (absent keys read
  \<open>false\<close>) and the slice \<open>result\<close>.\<close>

fun uniqueIDs_loop :: "int list \<Rightarrow> (int \<Rightarrow> bool) \<Rightarrow> int list \<Rightarrow> int list" where
  "uniqueIDs_loop [] seen result = result"
| "uniqueIDs_loop (id' # ids) seen result =
     (if \<not> seen id' then uniqueIDs_loop ids (seen(id' := True)) (result @ [id'])
      else uniqueIDs_loop ids seen result)"

definition uniqueIDs :: "int list \<Rightarrow> int list" where
  "uniqueIDs ids = uniqueIDs_loop ids (\<lambda>_. False) []"

text \<open>\<open>missingItemIDs\<close>: \<open>foundMap\<close> marks the identifiers of the items found; the
  requested identifiers it does not mark are collected in their order.\<close>

definition foundMap_of :: "'v Item list \<Rightarrow> (int \<Rightarrow> bool)" where
  "foundMap_of found = fold (\<lambda>item foundMap. foundMap(ID item := True)) found (\<lambda>_. False)"

fun missing_loop :: "int list \<Rightarrow> (int \<Rightarrow> bool) \<Rightarrow> int list \<Rightarrow> int list" where
  "missing_loop [] foundMap missing = missing"
| "missing_loop (id' # requested) foundMap missing =
     (if \<not> foundMap id' then missing_loop requested foundMap (missing @ [id'])
      else missing_loop requested foundMap missing)"

definition missingItemIDs :: "int list \<Rightarrow> 'v Item list \<Rightarrow> int list" where
  "missingItemIDs requested found = missing_loop requested (foundMap_of found) []"

text \<open>\<open>findCommonSpecs\<close>: \<open>specCounts[specKey]++\<close> for every key of every item, then
  the keys whose count is the number of items, sorted. Reading a map of counts at an
  absent key gives 0 (\<open>count_at\<close>).\<close>

definition count_at :: "(string \<times> nat) list \<Rightarrow> string \<Rightarrow> nat" where
  "count_at specCounts specKey = (case map_of specCounts specKey of None \<Rightarrow> 0 | Some c \<Rightarrow> c)"

definition incr :: "(string \<times> nat) list \<Rightarrow> string \<Rightarrow> (string \<times> nat) list" where
  "incr specCounts specKey = AList.update specKey (count_at specCounts specKey + 1) specCounts"

definition count_specs :: "'v Item list \<Rightarrow> (string \<times> nat) list" where
  "count_specs items =
     fold (\<lambda>item specCounts. fold (\<lambda>specKey m. incr m specKey)
             (spec_keys (Specifications item)) specCounts) items []"

definition findCommonSpecs :: "'v Item list \<Rightarrow> string list" where
  "findCommonSpecs items =
     (if length items = 0 then []
      else
        (let specCounts = count_specs items;
             totalItems = length items;
             common = map fst (filter (\<lambda>(specKey, count). count = totalItems) specCounts)
         in sort common))"

text \<open>\<open>findUniqueSpecs\<close>: \<open>specMap\<close> sends a key to the set of identifiers of the items
  that have it (a \<open>map[int64]bool\<close>); a key whose set has one identifier is appended to
  that identifier's list in \<open>unique\<close>; every list is sorted at the end. Reading
  \<open>specMap\<close> or \<open>unique\<close> at an absent key gives nil (\<open>ids_at\<close>, \<open>unique_of\<close>).\<close>

definition ids_at :: "(string \<times> (int \<times> bool) list) list \<Rightarrow> string \<Rightarrow> (int \<times> bool) list" where
  "ids_at specMap key = (case map_of specMap key of None \<Rightarrow> [] | Some ids \<Rightarrow> ids)"

definition add_spec ::
  "(string \<times> (int \<times> bool) list) list \<Rightarrow> string \<Rightarrow> int \<Rightarrow> (string \<times> (int \<times> bool) list) list" where
  "add_spec specMap key id' = AList.update key (AList.update id' True (ids_at specMap key)) specMap"

definition build_specMap :: "'v Item list \<Rightarrow> (string \<times> (int \<times> bool) list) list" where
  "build_specMap items =
     fold (\<lambda>item specMap. fold (\<lambda>key m. add_spec m key (ID item))
             (spec_keys (Specifications item)) specMap) items []"

definition unique_of :: "(int \<times> string list) list \<Rightarrow> int \<Rightarrow> string list" where
  "unique_of unique id' = (case map_of unique id' of None \<Rightarrow> [] | Some specs \<Rightarrow> specs)"

definition append_unique :: "(int \<times> string list) list \<Rightarrow> int \<Rightarrow> string \<Rightarrow> (int \<times> string list) list" where
  "append_unique unique id' spec = AList.update id' (unique_of unique id' @ [spec]) unique"

definition collect_unique ::
  "(string \<times> (int \<times> bool) list) list \<Rightarrow> (int \<times> string list) list \<Rightarrow> (int \<times> string list) list" where
  "collect_unique specMap unique =
     fold (\<lambda>(spec, ids) u.
             if length ids = 1 then fold (\<lambda>id' u'. append_unique u' id' spec) (map fst ids) u
             else u) specMap unique"

definition findUniqueSpecs :: "'v Item list \<Rightarrow> (int \<times> string list) list" where
  "findUniqueSpecs items =
     (let specMap = build_specMap items;
          unique = collect_unique specMap []
      in map (\<lambda>(id', specs). (id', sort specs)) unique)"

text \<open>\<open>generateComparison\<close>; the zero value of \<open>ComparisonDetails\<close> for no items.\<close>

definition generateComparison :: "'v Item list \<Rightarrow> ComparisonDetails" where
  "generateComparison items =
     (if length items = 0
      then \<lparr>PriceRange = \<lparr>Min_PriceRange = 0, Max_PriceRange = 0\<rparr>,
            RatingRange = \<lparr>Min_RatingRange = 0, Max_RatingRange = 0\<rparr>,
            CommonSpecs = [], UniqueSpecs = []\<rparr>
      else
        (let prices = sort (map Price items);
             ratings = sort (map Rating items)
         in \<lparr>PriceRange = \<lparr>Min_PriceRange = hd prices, Max_PriceRange = last prices\<rparr>,
             RatingRange = \<lparr>Min_RatingRange = hd ratings, Max_RatingRange = last ratings\<rparr>,
             CommonSpecs = findCommonSpecs items,
             UniqueSpecs = findUniqueSpecs items\<rparr>))"

definition CompareItems ::
  "('ctx, 'v) ItemRepository \<Rightarrow> 'ctx \<Rightarrow> int list
     \<Rightarrow> store_call list \<times> (DomainError + 'v CompareResponse)" where
  "CompareItems repo ctx itemIDs =
     (if length itemIDs < 2
      then ([], Inl (NewValidationError ''se requieren al menos 2 items para comparar'' None))
      else if length itemIDs > 10
      then ([], Inl (NewValidationError
                       (''m'' @ a_acute @ ''ximo 10 items pueden compararse a la vez'') None))
      else
        (let itemIDs' = uniqueIDs itemIDs in
         (case GetByIDs repo ctx itemIDs' of
            Inl err \<Rightarrow>
              ([CallGetByIDs itemIDs'],
               Inl (NewInternalServerError
                      (''error al obtener los items para comparaci'' @ o_acute @ ''n'') (Some err)))
          | Inr items \<Rightarrow>
              (if length items \<noteq> length itemIDs'
               then ([CallGetByIDs itemIDs'],
                     Inl (NewNotFoundError
                            (''Items con IDs '' @ fmt_v (Int64s (missingItemIDs itemIDs' items))
                               @ '' no encontrados'') Nil))
               else ([CallGetByIDs itemIDs'],
                     Inr \<lparr>Items = items, Comparison = generateComparison items\<rparr>)))))"

subsection \<open>Reading results, and the repository of the service's tests\<close>

text \<open>The code of the domain error a service method returned, if it returned one.\<close>

definition error_code :: "DomainError + 'a \<Rightarrow> ErrorCode option" where
  "error_code r = (case r of Inl e \<Rightarrow> Some (Code e) | Inr _ \<Rightarrow> None)"

text \<open>\<open>MockItemRepository\<close> of item_service_test.go: every method returns the value it
  was set up with, whatever it is asked.\<close>

definition MockItemRepository ::
  "(store_error + 'v Item list) \<Rightarrow> (store_error + 'v Item) \<Rightarrow> (store_error + 'v Item list)
     \<Rightarrow> (unit, 'v) ItemRepository" where
  "MockItemRepository all one many =
     \<lparr>GetAll = (\<lambda>ctx. all), GetByID = (\<lambda>ctx id'. one), GetByIDs = (\<lambda>ctx ids. many)\<rparr>"

text \<open>Items for the concrete runs below; the attribute values are strings.\<close>

definition mk_item :: "int \<Rightarrow> string \<Rightarrow> real \<Rightarrow> string Specifications \<Rightarrow> string Item" where
  "mk_item id' name price specs =
     \<lparr>ID = id', Name = name, ImageURL = [], Description = [], Price = price, Rating = 4,
      Specifications = specs\<rparr>"

definition item1 :: "string Item" where
  "item1 = mk_item 1 ''Item 1'' 100 [(''color'', ''red''), (''size'', ''large'')]"

definition item2 :: "string Item" where
  "item2 = mk_item 2 ''Item 2'' 200 [(''color'', ''blue''), (''brand'', ''Nike'')]"

definition item1_again :: "string Item" where
  "item1_again = mk_item 1 ''Item 1 bis'' 150 [(''color'', ''green'')]"

section \<open>Properties\<close>

subsection \<open>Deduplication: \<open>uniqueIDs\<close>\<close>

lemma uniqueIDs_loop_snoc:
  "uniqueIDs_loop (xs @ [x]) seen result =
     (if seen x \<or> x \<in> set xs then uniqueIDs_loop xs seen result
      else uniqueIDs_loop xs seen result @ [x])"
proof (induction xs arbitrary: seen result)
  case Nil
  show ?case by simp
next
  case (Cons y ys)
  show ?case
  proof (cases "seen y")
    case True
    then show ?thesis using Cons.IH [of seen result] by auto
  next
    case False
    have upd: "(seen(y := True)) x = (x = y \<or> seen x)" by simp
    from False have "uniqueIDs_loop ((y # ys) @ [x]) seen result =
        uniqueIDs_loop (ys @ [x]) (seen(y := True)) (result @ [y])"
      by simp
    also have "\<dots> = (if x = y \<or> seen x \<or> x \<in> set ys
        then uniqueIDs_loop ys (seen(y := True)) (result @ [y])
        else uniqueIDs_loop ys (seen(y := True)) (result @ [y]) @ [x])"
      unfolding Cons.IH [of "seen(y := True)" "result @ [y]"] upd by (simp only: disj_assoc)
    finally show ?thesis using False by auto
  qed
qed

lemma uniqueIDs_Nil: "uniqueIDs [] = []"
  by (simp add: uniqueIDs_def)

lemma uniqueIDs_snoc:
  "uniqueIDs (xs @ [x]) = (if x \<in> set xs then uniqueIDs xs else uniqueIDs xs @ [x])"
  by (simp add: uniqueIDs_def uniqueIDs_loop_snoc)

lemma set_uniqueIDs: "set (uniqueIDs ids) = set ids"
  by (induction ids rule: rev_induct) (auto simp: uniqueIDs_Nil uniqueIDs_snoc)

lemma distinct_uniqueIDs: "distinct (uniqueIDs ids)"
  by (induction ids rule: rev_induct) (auto simp: uniqueIDs_Nil uniqueIDs_snoc set_uniqueIDs)

lemma uniqueIDs_distinct_id: "distinct ids \<Longrightarrow> uniqueIDs ids = ids"
  by (induction ids rule: rev_induct) (auto simp: uniqueIDs_Nil uniqueIDs_snoc)

lemma uniqueIDs_idem: "uniqueIDs (uniqueIDs ids) = uniqueIDs ids"
  by (rule uniqueIDs_distinct_id) (rule distinct_uniqueIDs)

lemma length_uniqueIDs: "length (uniqueIDs ids) = card (set ids)"
  using distinct_card [OF distinct_uniqueIDs, of ids] by (simp add: set_uniqueIDs)

lemma length_uniqueIDs_le: "length (uniqueIDs ids) \<le> length ids"
  by (simp add: length_uniqueIDs card_length)

subsection \<open>Missing identifiers: \<open>missingItemIDs\<close>\<close>

lemma fold_foundMap:
  "fold (\<lambda>item foundMap. foundMap(ID item := True)) found m i = (m i \<or> i \<in> ID ` set found)"
  by (induction found arbitrary: m) auto

lemma foundMap_of_iff: "foundMap_of found i \<longleftrightarrow> i \<in> ID ` set found"
  by (simp add: foundMap_of_def fold_foundMap)

lemma missing_loop_filter:
  "missing_loop requested foundMap missing = missing @ filter (\<lambda>i. \<not> foundMap i) requested"
  by (induction requested arbitrary: missing) auto

lemma missingItemIDs_filter:
  "missingItemIDs requested found = filter (\<lambda>i. i \<notin> ID ` set found) requested"
  by (simp add: missingItemIDs_def missing_loop_filter foundMap_of_iff)

subsection \<open>Deduplication and \<open>CompareItems\<close>\<close>

lemma CompareItems_dedup:
  assumes "2 \<le> card (set ids)" "length ids \<le> 10"
  shows "CompareItems repo ctx ids = CompareItems repo ctx (uniqueIDs ids)"
proof -
  have l: "length (uniqueIDs ids) = card (set ids)" by (rule length_uniqueIDs)
  have "card (set ids) \<le> length ids" by (rule card_length)
  with assms l have "\<not> length ids < 2" "\<not> 10 < length ids"
    "\<not> length (uniqueIDs ids) < 2" "\<not> 10 < length (uniqueIDs ids)"
    by simp_all
  then show ?thesis by (simp add: CompareItems_def uniqueIDs_idem)
qed

text \<open>
  Claim C9. Deduplication keeps the first occurrence of every identifier, in input order
  (an identifier is appended to the result exactly when it has not occurred before), and
  is idempotent; \<open>[1,2,1]\<close> becomes \<open>[1,2]\<close>, and \<open>CompareItems\<close> on \<open>[1,2,1]\<close> and on
  \<open>[1,2]\<close> makes the same repository call and returns the same result, for every
  repository. More generally a request and its deduplicated form agree whenever both
  pass the length check.
\<close>

theorem uniqueIDs_order_stable_idempotent:
  "uniqueIDs [] = []
   \<and> uniqueIDs (xs @ [x]) = (if x \<in> set xs then uniqueIDs xs else uniqueIDs xs @ [x])
   \<and> uniqueIDs (uniqueIDs ids) = uniqueIDs ids
   \<and> uniqueIDs [1, 2, 1] = [1, 2]
   \<and> CompareItems repo ctx [1, 2, 1] = CompareItems repo ctx [1, 2]
   \<and> (2 \<le> card (set ids) \<and> length ids \<le> 10 \<longrightarrow>
        CompareItems repo ctx ids = CompareItems repo ctx (uniqueIDs ids))"
proof -
  have e: "uniqueIDs [1, 2, 1] = [1, 2]" by (simp add: uniqueIDs_def)
  have d: "uniqueIDs [1, 2] = [1, 2]" by (simp add: uniqueIDs_def)
  have c: "CompareItems repo ctx [1, 2, 1] = CompareItems repo ctx [1, 2]"
    by (simp add: CompareItems_def e d)
  show ?thesis
    using e c CompareItems_dedup [of ids repo ctx]
    by (simp add: uniqueIDs_Nil uniqueIDs_snoc uniqueIDs_idem)
qed

theorem uniqueIDs_order_stable_idempotent_witness:
  "2 \<le> card (set [1, 2, 1 :: int]) \<and> length [1, 2, 1 :: int] \<le> 10
   \<and> CompareItems (MockItemRepository (Inr []) (Inl ErrNotFound) (Inr [item1, item2])) () [1, 2, 1]
     = CompareItems (MockItemRepository (Inr []) (Inl ErrNotFound) (Inr [item1, item2])) () [1, 2]
   \<and> snd (CompareItems (MockItemRepository (Inr []) (Inl ErrNotFound) (Inr [item1, item2])) () [1, 2, 1])
     = Inr \<lparr>Items = [item1, item2], Comparison = generateComparison [item1, item2]\<rparr>"
proof -
  have h: "2 \<le> card (set [1, 2, 1 :: int])"
    unfolding card_set by simp
  show ?thesis
    using h uniqueIDs_order_stable_idempotent [of "[]" 0 "[1, 2, 1]"
        "MockItemRepository (Inr []) (Inl ErrNotFound) (Inr [item1, item2])" "()"]
    by (simp add: CompareItems_def uniqueIDs_def MockItemRepository_def)
qed

subsection \<open>Validation of the request\<close>

lemma CompareItems_rejected:
  assumes "length ids < 2 \<or> 10 < length ids"
  shows "fst (CompareItems repo ctx ids) = []"
    and "error_code (snd (CompareItems repo ctx ids)) = Some ErrorCodeValidation"
  using assms
  by (auto simp: CompareItems_def error_code_def NewValidationError_def NewDomainError_def)

lemma CompareItems_admitted:
  assumes "2 \<le> length ids" "length ids \<le> 10"
  shows "fst (CompareItems repo ctx ids) = [CallGetByIDs (uniqueIDs ids)]"
    and "error_code (snd (CompareItems repo ctx ids)) \<noteq> Some ErrorCodeValidation"
  using assms
  by (auto simp: CompareItems_def error_code_def NewInternalServerError_def NewNotFoundError_def
      NewDomainError_def Let_def split: sum.splits)

text \<open>
  The check is not made on the distinct identifiers: \<open>[1,1]\<close> has one distinct value,
  passes the length check, and the repository is queried with \<open>[1]\<close>; the single item
  it returns is accepted.
\<close>

theorem CompareItems_duplicate_pair_queries_store:
  "card (set [1, 1 :: int]) < 2
   \<and> CompareItems (MockItemRepository (Inr []) (Inl ErrNotFound) (Inr [item1])) () [1, 1]
     = ([CallGetByIDs [1]], Inr \<lparr>Items = [item1], Comparison = generateComparison [item1]\<rparr>)"
  by (simp add: CompareItems_def uniqueIDs_def MockItemRepository_def)

text \<open>
  Claim C1, as the code has it. \<open>CompareItems\<close> checks the length of the request as it
  was received, before \<open>uniqueIDs\<close>: a request of fewer than 2 or more than 10
  identifiers (so every request with more than 10 distinct values) is answered with a
  validation error and no repository call; a request of 2 to 10 identifiers is never
  answered with a validation error, whatever its number of distinct values, and the
  repository is queried once, with the deduplicated identifiers.
\<close>

theorem CompareItems_validates_raw_length:
  "((length ids < 2 \<or> 10 < length ids \<or> 10 < card (set ids)) \<longrightarrow>
      fst (CompareItems repo ctx ids) = []
      \<and> error_code (snd (CompareItems repo ctx ids)) = Some ErrorCodeValidation)
   \<and> (2 \<le> length ids \<and> length ids \<le> 10 \<longrightarrow>
      fst (CompareItems repo ctx ids) = [CallGetByIDs (uniqueIDs ids)]
      \<and> error_code (snd (CompareItems repo ctx ids)) \<noteq> Some ErrorCodeValidation)"
proof -
  have "card (set ids) \<le> length ids" by (rule card_length)
  then have "10 < card (set ids) \<Longrightarrow> 10 < length ids" by simp
  then show ?thesis
    using CompareItems_rejected [of ids repo ctx] CompareItems_admitted [of ids repo ctx]
    by blast
qed

text \<open>
  The theorem at \<open>[1]\<close> (rejected) and at \<open>[1,1]\<close> (admitted).
\<close>

theorem CompareItems_validates_raw_length_witness:
  "length [1 :: int] < 2
   \<and> fst (CompareItems (MockItemRepository (Inr []) (Inl ErrNotFound) (Inr [item1])) () [1]) = []
   \<and> error_code (snd (CompareItems (MockItemRepository (Inr []) (Inl ErrNotFound) (Inr [item1])) () [1]))
       = Some ErrorCodeValidation
   \<and> 2 \<le> length [1, 1 :: int] \<and> length [1, 1 :: int] \<le> 10
   \<and> fst (CompareItems (MockItemRepository (Inr []) (Inl ErrNotFound) (Inr [item1])) () [1, 1])
       = [CallGetByIDs [1]]"
  using CompareItems_validates_raw_length [of "[1]" "MockItemRepository (Inr []) (Inl ErrNotFound) (Inr [item1])" "()"]
    CompareItems_validates_raw_length [of "[1, 1]" "MockItemRepository (Inr []) (Inl ErrNotFound) (Inr [item1])" "()"]
  by (simp add: uniqueIDs_def)

subsection \<open>The order of the returned items\<close>

lemma CompareItems_success:
  assumes "CompareItems repo ctx ids = (calls, Inr resp)"
  shows "GetByIDs repo ctx (uniqueIDs ids) = Inr (Items resp)"
    and "calls = [CallGetByIDs (uniqueIDs ids)]"
    and "Comparison resp = generateComparison (Items resp)"
    and "length (Items resp) = length (uniqueIDs ids)"
    and "2 \<le> length ids" and "length ids \<le> 10"
  using assms
  by (auto simp: CompareItems_def Let_def split: if_splits sum.splits)

text \<open>
  The service does not sort: a repository answering \<open>[1,2]\<close> with item 2 before item 1
  gets its items back in that order.
\<close>

theorem CompareItems_items_not_sorted:
  "CompareItems (MockItemRepository (Inr []) (Inl ErrNotFound) (Inr [item2, item1])) () [1, 2]
     = ([CallGetByIDs [1, 2]],
        Inr \<lparr>Items = [item2, item1], Comparison = generateComparison [item2, item1]\<rparr>)
   \<and> map ID [item2, item1] = [2, 1] \<and> \<not> sorted (map ID [item2, item1])"
  by (simp add: CompareItems_def uniqueIDs_def MockItemRepository_def item1_def item2_def
      mk_item_def)

text \<open>
  Claim C3, as the code has it. The items of a successful comparison are the list the
  repository returned for the deduplicated identifiers, unchanged and in the
  repository's order; the service makes that one call and does not reorder.
\<close>

theorem CompareItems_items_in_store_order:
  assumes "CompareItems repo ctx ids = (calls, Inr resp)"
  shows "GetByIDs repo ctx (uniqueIDs ids) = Inr (Items resp)
         \<and> calls = [CallGetByIDs (uniqueIDs ids)]"
  using CompareItems_success(1,2) [OF assms] by simp

text \<open>
  The theorem at a repository that answers with items 1 and 2.
\<close>

theorem CompareItems_items_in_store_order_witness:
  "CompareItems (MockItemRepository (Inr []) (Inl ErrNotFound) (Inr [item1, item2])) () [2, 1]
     = ([CallGetByIDs [2, 1]],
        Inr \<lparr>Items = [item1, item2], Comparison = generateComparison [item1, item2]\<rparr>)
   \<and> GetByIDs (MockItemRepository (Inr []) (Inl ErrNotFound) (Inr [item1, item2])) () (uniqueIDs [2, 1])
     = Inr (Items \<lparr>Items = [item1, item2], Comparison = generateComparison [item1, item2]\<rparr>)"
proof -
  have h: "CompareItems (MockItemRepository (Inr []) (Inl ErrNotFound) (Inr [item1, item2])) () [2, 1]
     = ([CallGetByIDs [2, 1]],
        Inr \<lparr>Items = [item1, item2], Comparison = generateComparison [item1, item2]\<rparr>)"
    by (simp add: CompareItems_def uniqueIDs_def MockItemRepository_def)
  show ?thesis using h CompareItems_items_in_store_order [OF h] by blast
qed

subsection \<open>Missing items\<close>

lemma errors_Is_leaf_exclusive:
  "errors_Is err Canceled \<Longrightarrow> \<not> errors_Is err ErrNotFound"
  by (induction err) auto

text \<open>
  Claim C6. For a request that passes the length check, when the repository returns
  fewer items than there are distinct requested identifiers, \<open>CompareItems\<close> fails with
  a not-found error whose message prints \<open>missingItemIDs\<close>: the deduplicated requested
  identifiers that are the identifier of no returned item, in request order, each once,
  and at least one.
\<close>

theorem CompareItems_missing_items_not_found:
  assumes "2 \<le> length ids" and "length ids \<le> 10"
    and "GetByIDs repo ctx (uniqueIDs ids) = Inr items"
    and "length items < length (uniqueIDs ids)"
  shows "CompareItems repo ctx ids =
           ([CallGetByIDs (uniqueIDs ids)],
            Inl \<lparr>Code = ErrorCodeNotFound,
                 Message = ''Items con IDs ''
                   @ fmt_v (Int64s (missingItemIDs (uniqueIDs ids) items))
                   @ '' no encontrados with id <nil> not found'',
                 Err = None\<rparr>)
         \<and> missingItemIDs (uniqueIDs ids) items
             = filter (\<lambda>i. i \<notin> ID ` set items) (uniqueIDs ids)
         \<and> set (missingItemIDs (uniqueIDs ids) items) = set ids - ID ` set items
         \<and> distinct (missingItemIDs (uniqueIDs ids) items)
         \<and> missingItemIDs (uniqueIDs ids) items \<noteq> []"
proof -
  let ?u = "uniqueIDs ids"
  let ?m = "missingItemIDs ?u items"
  have res: "CompareItems repo ctx ids =
           ([CallGetByIDs ?u],
            Inl \<lparr>Code = ErrorCodeNotFound,
                 Message = ''Items con IDs '' @ fmt_v (Int64s ?m)
                   @ '' no encontrados with id <nil> not found'',
                 Err = None\<rparr>)"
    using assms by (simp add: CompareItems_def NewNotFoundError_def NewDomainError_def Let_def)
  have flt: "?m = filter (\<lambda>i. i \<notin> ID ` set items) ?u"
    by (rule missingItemIDs_filter)
  have st: "set ?m = set ids - ID ` set items"
    by (auto simp: flt set_uniqueIDs)
  have ds: "distinct ?m"
    by (simp add: flt distinct_uniqueIDs)
  have ne: "?m \<noteq> []"
  proof
    assume "?m = []"
    with st have sub: "set ids \<subseteq> ID ` set items" by simp
    have "card (set ids) \<le> card (ID ` set items)"
      by (rule card_mono [OF _ sub]) simp
    also have "\<dots> \<le> card (set items)" by (rule card_image_le) simp
    also have "\<dots> \<le> length items" by (rule card_length)
    finally show False using assms(4) by (simp add: length_uniqueIDs)
  qed
  from res flt st ds ne show ?thesis by blast
qed

text \<open>
  The theorem at the request \<open>[3,1,2]\<close> answered with item 1 alone: 3 and 2 are named.
\<close>

theorem CompareItems_missing_items_not_found_witness:
  "2 \<le> length [3, 1, 2 :: int] \<and> length [3, 1, 2 :: int] \<le> 10
   \<and> GetByIDs (MockItemRepository (Inr []) (Inl ErrNotFound) (Inr [item1])) () (uniqueIDs [3, 1, 2])
       = Inr [item1]
   \<and> length [item1] < length (uniqueIDs [3, 1, 2])
   \<and> CompareItems (MockItemRepository (Inr []) (Inl ErrNotFound) (Inr [item1])) () [3, 1, 2] =
           ([CallGetByIDs [3, 1, 2]],
            Inl \<lparr>Code = ErrorCodeNotFound,
                 Message = ''Items con IDs [3 2] no encontrados with id <nil> not found'',
                 Err = None\<rparr>)"
proof -
  let ?repo = "MockItemRepository (Inr []) (Inl ErrNotFound) (Inr [item1])"
  have u: "uniqueIDs [3, 1, 2] = [3, 1, 2]" by (simp add: uniqueIDs_def)
  have g: "GetByIDs ?repo () (uniqueIDs [3, 1, 2]) = Inr [item1]"
    by (simp add: MockItemRepository_def)
  have l: "length [item1] < length (uniqueIDs [3, 1, 2])" by (simp add: u)
  have m: "missingItemIDs [3, 1, 2] [item1] = [3, 2]"
    by (simp add: missingItemIDs_def foundMap_of_def item1_def mk_item_def)
  have f: "fmt_v (Int64s [3, 2]) = ''[3 2]''"
    by code_simp
  have "2 \<le> length [3, 1, 2 :: int]" "length [3, 1, 2 :: int] \<le> 10" by simp_all
  from CompareItems_missing_items_not_found [OF this g l, unfolded u m f] show ?thesis using g l by (simp add: u)
qed

subsection \<open>Single-item retrieval\<close>

text \<open>
  Claim C7. \<open>GetItemByID\<close> answers an identifier \<open>\<le> 0\<close> with a validation error and no
  repository call; a repository error that is \<open>ErrNotFound\<close> (through \<open>errors.Is\<close>) with
  a not-found error naming the identifier; any other repository error with an internal
  server error that wraps it; and a found item is returned.
\<close>

theorem GetItemByID_error_translation:
  "(id' \<le> 0 \<longrightarrow>
      GetItemByID repo ctx id' =
        ([], Inl \<lparr>Code = ErrorCodeValidation, Message = ''ID inv'' @ a_acute @ ''lido'',
                  Err = None\<rparr>))
   \<and> (0 < id' \<and> GetByID repo ctx id' = Inl err \<and> errors_Is err ErrNotFound \<longrightarrow>
      GetItemByID repo ctx id' =
        ([CallGetByID id'],
         Inl \<lparr>Code = ErrorCodeNotFound,
              Message = ''Item with id '' @ fmt_int id' @ '' not found'', Err = None\<rparr>))
   \<and> (0 < id' \<and> GetByID repo ctx id' = Inl err \<and> \<not> errors_Is err ErrNotFound \<longrightarrow>
      GetItemByID repo ctx id' =
        ([CallGetByID id'],
         Inl \<lparr>Code = ErrorCodeInternalServer, Message = ''error al obtener el item'',
              Err = Some err\<rparr>)
      \<and> Unwrap \<lparr>Code = ErrorCodeInternalServer, Message = ''error al obtener el item'',
              Err = Some err\<rparr> = Some err)
   \<and> (0 < id' \<and> GetByID repo ctx id' = Inr item \<longrightarrow>
      GetItemByID repo ctx id' = ([CallGetByID id'], Inr item))"
  by (simp add: GetItemByID_def NewValidationError_def NewNotFoundError_def
      NewInternalServerError_def NewDomainError_def Unwrap_def)

text \<open>
  The theorem at identifier 0, at a wrapped \<open>ErrNotFound\<close>, at \<open>sql.ErrConnDone\<close> and at a
  found item.
\<close>

theorem GetItemByID_error_translation_witness:
  "GetItemByID (MockItemRepository (Inr []) (Inr item1) (Inr [])) () 0 =
        ([], Inl \<lparr>Code = ErrorCodeValidation, Message = ''ID inv'' @ a_acute @ ''lido'',
                  Err = None\<rparr>)
   \<and> GetItemByID (MockItemRepository (Inr []) (Inl (Wrapf ''lookup'' ErrNotFound)) (Inr [])
       :: (unit, string) ItemRepository) () 999 =
        ([CallGetByID 999],
         Inl \<lparr>Code = ErrorCodeNotFound, Message = ''Item with id 999 not found'', Err = None\<rparr>)
   \<and> GetItemByID (MockItemRepository (Inr []) (Inl (Sentinel ''sql: connection is already closed'')) (Inr [])
       :: (unit, string) ItemRepository) () 1 =
        ([CallGetByID 1],
         Inl \<lparr>Code = ErrorCodeInternalServer, Message = ''error al obtener el item'',
              Err = Some (Sentinel ''sql: connection is already closed'')\<rparr>)
   \<and> GetItemByID (MockItemRepository (Inr []) (Inr item1) (Inr [])) () 1 = ([CallGetByID 1], Inr item1)"
proof -
  have f: "fmt_int 999 = ''999''" by code_simp
  have a: "(0 :: int) \<le> 0" by simp
  have b: "0 < (999 :: int) \<and>
      GetByID (MockItemRepository (Inr []) (Inl (Wrapf ''lookup'' ErrNotFound)) (Inr [])) () 999
        = Inl (Wrapf ''lookup'' ErrNotFound)
      \<and> errors_Is (Wrapf ''lookup'' ErrNotFound) ErrNotFound"
    by (simp add: MockItemRepository_def)
  have c: "0 < (1 :: int) \<and>
      GetByID (MockItemRepository (Inr []) (Inl (Sentinel ''sql: connection is already closed'')) (Inr [])) () 1
        = Inl (Sentinel ''sql: connection is already closed'')
      \<and> \<not> errors_Is (Sentinel ''sql: connection is already closed'') ErrNotFound"
    by (simp add: MockItemRepository_def)
  have d: "0 < (1 :: int) \<and>
      GetByID (MockItemRepository (Inr []) (Inr item1) (Inr [])) () 1 = Inr item1"
    by (simp add: MockItemRepository_def)
  note r1 = GetItemByID_error_translation [of 0 "MockItemRepository (Inr []) (Inr item1) (Inr [])" "()" ErrNotFound item1,
      THEN conjunct1, THEN mp, OF a]
  note r2 = GetItemByID_error_translation [of 999 "MockItemRepository (Inr []) (Inl (Wrapf ''lookup'' ErrNotFound)) (Inr [])"
      "()" "Wrapf ''lookup'' ErrNotFound" item1,
      THEN conjunct2, THEN conjunct1, THEN mp, OF b, unfolded f, simplified]
  note r3 = GetItemByID_error_translation [of 1
      "MockItemRepository (Inr []) (Inl (Sentinel ''sql: connection is already closed'')) (Inr [])"
      "()" "Sentinel ''sql: connection is already closed''" item1,
      THEN conjunct2, THEN conjunct2, THEN conjunct1, THEN mp, OF c, THEN conjunct1]
  note r4 = GetItemByID_error_translation [of 1 "MockItemRepository (Inr []) (Inr item1) (Inr [])" "()" ErrNotFound item1,
      THEN conjunct2, THEN conjunct2, THEN conjunct2, THEN mp, OF d]
  show ?thesis by (intro conjI r1 r2 r3 r4)
qed

subsection \<open>Cancellation\<close>

text \<open>
  A cancelled context is not told apart: when the repository fails with
  \<open>context.Canceled\<close>, bare or wrapped, all three operations return the internal server
  error they return for any failure, with the same code as for \<open>sql.ErrConnDone\<close>.
\<close>

theorem cancellation_is_internal_server_error:
  "errors_Is (Wrapf ''failed to query items'' Canceled) Canceled
   \<and> GetAllItems (MockItemRepository (Inl (Wrapf ''failed to query items'' Canceled))
         (Inl ErrNotFound) (Inr [] :: store_error + string Item list)) ()
       = ([CallGetAll],
          Inl \<lparr>Code = ErrorCodeInternalServer, Message = ''error al obtener los items'',
               Err = Some (Wrapf ''failed to query items'' Canceled)\<rparr>)
   \<and> GetItemByID (MockItemRepository (Inr [])
         (Inl Canceled :: store_error + string Item) (Inr [])) () 1
       = ([CallGetByID 1],
          Inl \<lparr>Code = ErrorCodeInternalServer, Message = ''error al obtener el item'',
               Err = Some Canceled\<rparr>)
   \<and> CompareItems (MockItemRepository (Inr []) (Inl ErrNotFound)
         (Inl Canceled :: store_error + string Item list)) () [1, 2]
       = ([CallGetByIDs [1, 2]],
          Inl \<lparr>Code = ErrorCodeInternalServer,
               Message = ''error al obtener los items para comparaci'' @ o_acute @ ''n'',
               Err = Some Canceled\<rparr>)
   \<and> error_code (snd (CompareItems (MockItemRepository (Inr []) (Inl ErrNotFound)
         (Inl Canceled :: store_error + string Item list)) () [1, 2]))
       = error_code (snd (CompareItems (MockItemRepository (Inr []) (Inl ErrNotFound)
         (Inl (Sentinel ''sql: connection is already closed'') :: store_error + string Item list)) () [1, 2]))"
  by (simp add: GetAllItems_def GetItemByID_def CompareItems_def MockItemRepository_def
      uniqueIDs_def NewInternalServerError_def NewDomainError_def error_code_def)

text \<open>
  Claim C8, as the code has it. Every repository failure, a cancelled context included,
  becomes the operation's internal server error with its fixed message; the cause is
  kept as the wrapped error only (\<open>Unwrap\<close>).
\<close>

theorem store_failure_is_internal_server_error:
  "(GetAll repo ctx = Inl err \<longrightarrow>
      GetAllItems repo ctx =
        ([CallGetAll], Inl (NewInternalServerError ''error al obtener los items'' (Some err))))
   \<and> (0 < id' \<and> GetByID repo ctx id' = Inl err \<and> errors_Is err Canceled \<longrightarrow>
      GetItemByID repo ctx id' =
        ([CallGetByID id'],
         Inl (NewInternalServerError ''error al obtener el item'' (Some err))))
   \<and> (2 \<le> length ids \<and> length ids \<le> 10 \<and> GetByIDs repo ctx (uniqueIDs ids) = Inl err \<longrightarrow>
      CompareItems repo ctx ids =
        ([CallGetByIDs (uniqueIDs ids)],
         Inl (NewInternalServerError
                (''error al obtener los items para comparaci'' @ o_acute @ ''n'') (Some err))))
   \<and> Code (NewInternalServerError message (Some err)) = ErrorCodeInternalServer
   \<and> Message (NewInternalServerError message (Some err)) = message
   \<and> Unwrap (NewInternalServerError message (Some err)) = Some err"
  using errors_Is_leaf_exclusive [of err]
  by (auto simp: GetAllItems_def GetItemByID_def CompareItems_def Let_def
      NewInternalServerError_def NewDomainError_def Unwrap_def)


text \<open>
  The theorem at a repository whose every call fails with \<open>context.Canceled\<close>.
\<close>

theorem store_failure_is_internal_server_error_witness:
  "GetAllItems (MockItemRepository (Inl Canceled) (Inl Canceled) (Inl Canceled)
       :: (unit, string) ItemRepository) ()
     = ([CallGetAll], Inl (NewInternalServerError ''error al obtener los items'' (Some Canceled)))
   \<and> GetItemByID (MockItemRepository (Inl Canceled) (Inl Canceled) (Inl Canceled)
       :: (unit, string) ItemRepository) () 1
     = ([CallGetByID 1], Inl (NewInternalServerError ''error al obtener el item'' (Some Canceled)))
   \<and> CompareItems (MockItemRepository (Inl Canceled) (Inl Canceled) (Inl Canceled)
       :: (unit, string) ItemRepository) () [1, 2]
     = ([CallGetByIDs (uniqueIDs [1, 2])],
        Inl (NewInternalServerError
               (''error al obtener los items para comparaci'' @ o_acute @ ''n'') (Some Canceled)))"
proof -
  let ?repo = "MockItemRepository (Inl Canceled) (Inl Canceled) (Inl Canceled)
       :: (unit, string) ItemRepository"
  have a: "GetAll ?repo () = Inl Canceled"
    by (simp add: MockItemRepository_def)
  have b: "0 < (1 :: int) \<and> GetByID ?repo () 1 = Inl Canceled \<and> errors_Is Canceled Canceled"
    by (simp add: MockItemRepository_def)
  have c: "2 \<le> length [1, 2 :: int] \<and> length [1, 2 :: int] \<le> 10
      \<and> GetByIDs ?repo () (uniqueIDs [1, 2]) = Inl Canceled"
    by (simp add: MockItemRepository_def)
  note t = store_failure_is_internal_server_error [of ?repo "()" Canceled 1 "[1, 2]" "[]"]
  note r1 = t [THEN conjunct1, THEN mp, OF a]
  note r2 = t [THEN conjunct2, THEN conjunct1, THEN mp, OF b]
  note r3 = t [THEN conjunct2, THEN conjunct2, THEN conjunct1, THEN mp, OF c]
  show ?thesis by (intro conjI r1 r2 r3)
qed

subsection \<open>The completeness check\<close>

text \<open>
  Claim C10. For a request that passes the length check and a repository call that
  succeeds, \<open>CompareItems\<close> returns a not-found error exactly when the number of
  returned items differs from the number of distinct requested identifiers; when the
  numbers agree the returned items are the result's items, whatever their identifiers.
\<close>

theorem CompareItems_completeness_is_count_only:
  assumes "2 \<le> length ids" and "length ids \<le> 10"
    and "GetByIDs repo ctx (uniqueIDs ids) = Inr items"
  shows "(error_code (snd (CompareItems repo ctx ids)) = Some ErrorCodeNotFound
            \<longleftrightarrow> length items \<noteq> card (set ids))
         \<and> (length items = card (set ids) \<longrightarrow>
              CompareItems repo ctx ids =
                ([CallGetByIDs (uniqueIDs ids)],
                 Inr \<lparr>Items = items, Comparison = generateComparison items\<rparr>))"
  using assms
  by (simp add: CompareItems_def Let_def error_code_def NewNotFoundError_def NewDomainError_def
      length_uniqueIDs)

text \<open>
  The theorem at the request \<open>[7,8]\<close> answered with items 2 and 1: accepted.
\<close>

theorem CompareItems_completeness_is_count_only_witness:
  "2 \<le> length [7, 8 :: int] \<and> length [7, 8 :: int] \<le> 10
   \<and> GetByIDs (MockItemRepository (Inr []) (Inl ErrNotFound) (Inr [item2, item1])) ()
         (uniqueIDs [7, 8]) = Inr [item2, item1]
   \<and> length [item2, item1] = card (set [7, 8 :: int])
   \<and> map ID [item2, item1] = [2, 1]
   \<and> CompareItems (MockItemRepository (Inr []) (Inl ErrNotFound) (Inr [item2, item1])) () [7, 8]
       = ([CallGetByIDs (uniqueIDs [7, 8])],
          Inr \<lparr>Items = [item2, item1], Comparison = generateComparison [item2, item1]\<rparr>)"
proof -
  let ?repo = "MockItemRepository (Inr []) (Inl ErrNotFound) (Inr [item2, item1])"
  have a: "2 \<le> length [7, 8 :: int]" and b: "length [7, 8 :: int] \<le> 10" by simp_all
  have g: "GetByIDs ?repo () (uniqueIDs [7, 8]) = Inr [item2, item1]"
    by (simp add: MockItemRepository_def)
  have n: "length [item2, item1] = card (set [7, 8 :: int])"
    unfolding card_set by simp
  have i: "map ID [item2, item1] = [2, 1]"
    by (simp add: item1_def item2_def mk_item_def)
  note r = CompareItems_completeness_is_count_only [OF a b g, THEN conjunct2, THEN mp, OF n]
  show ?thesis by (intro conjI a b g n i r)
qed

subsection \<open>Common specifications\<close>

lemma set_spec_keys: "set (spec_keys s) = fst ` set s"
  by (simp add: spec_keys_def)

lemma distinct_spec_keys: "distinct (spec_keys s)"
  by (simp add: spec_keys_def)

lemma count_at_incr:
  "count_at (incr m k) k' = (if k' = k then count_at m k + 1 else count_at m k')"
  by (simp add: count_at_def incr_def update_conv')

lemma keys_incr: "fst ` set (incr m k) = insert k (fst ` set m)"
  by (simp add: incr_def dom_update)

lemma distinct_incr: "distinct (map fst m) \<Longrightarrow> distinct (map fst (incr m k))"
  by (simp add: incr_def distinct_update)

lemma count_at_fold_incr:
  "distinct ks \<Longrightarrow>
   count_at (fold (\<lambda>specKey m. incr m specKey) ks m) k
     = count_at m k + (if k \<in> set ks then 1 else 0)"
  by (induction ks arbitrary: m) (auto simp: count_at_incr)

lemma keys_fold_incr:
  "fst ` set (fold (\<lambda>specKey m. incr m specKey) ks m) = fst ` set m \<union> set ks"
  by (induction ks arbitrary: m) (auto simp: keys_incr)

lemma distinct_fold_incr:
  "distinct (map fst m) \<Longrightarrow> distinct (map fst (fold (\<lambda>specKey m. incr m specKey) ks m))"
  by (induction ks arbitrary: m) (auto simp: distinct_incr)

lemma count_at_fold_items:
  "count_at (fold (\<lambda>item specCounts. fold (\<lambda>specKey m. incr m specKey)
               (spec_keys (Specifications item)) specCounts) items m) k
     = count_at m k + length (filter (\<lambda>item. k \<in> fst ` set (Specifications item)) items)"
  by (induction items arbitrary: m)
     (auto simp: count_at_fold_incr distinct_spec_keys set_spec_keys)

lemma keys_fold_items:
  "fst ` set (fold (\<lambda>item specCounts. fold (\<lambda>specKey m. incr m specKey)
               (spec_keys (Specifications item)) specCounts) items m)
     = fst ` set m \<union> (\<Union>item \<in> set items. fst ` set (Specifications item))"
  by (induction items arbitrary: m) (auto simp: keys_fold_incr set_spec_keys)

lemma distinct_fold_items:
  "distinct (map fst m) \<Longrightarrow>
   distinct (map fst (fold (\<lambda>item specCounts. fold (\<lambda>specKey m. incr m specKey)
               (spec_keys (Specifications item)) specCounts) items m))"
  by (induction items arbitrary: m) (auto simp: distinct_fold_incr)

lemma count_at_count_specs:
  "count_at (count_specs items) k
     = length (filter (\<lambda>item. k \<in> fst ` set (Specifications item)) items)"
  by (simp add: count_specs_def count_at_fold_items) (simp add: count_at_def)

lemma keys_count_specs:
  "fst ` set (count_specs items) = (\<Union>item \<in> set items. fst ` set (Specifications item))"
  by (simp add: count_specs_def keys_fold_items)

lemma distinct_count_specs: "distinct (map fst (count_specs items))"
  by (simp add: count_specs_def distinct_fold_items)

lemma mem_alist_iff:
  assumes "distinct (map fst m)"
  shows "(k, c) \<in> set m \<longleftrightarrow> k \<in> fst ` set m \<and> count_at m k = c"
proof
  assume "(k, c) \<in> set m"
  then have "map_of m k = Some c" using assms by simp
  then show "k \<in> fst ` set m \<and> count_at m k = c"
    using \<open>(k, c) \<in> set m\<close> by (auto simp: count_at_def intro: rev_image_eqI)
next
  assume r: "k \<in> fst ` set m \<and> count_at m k = c"
  then obtain c' where "(k, c') \<in> set m" by auto
  then have "map_of m k = Some c'" using assms by simp
  with r have "c' = c" by (simp add: count_at_def)
  with \<open>(k, c') \<in> set m\<close> show "(k, c) \<in> set m" by simp
qed

lemma length_filter_eq_iff: "length (filter P xs) = length xs \<longleftrightarrow> (\<forall>x \<in> set xs. P x)"
proof (induction xs)
  case Nil
  show ?case by simp
next
  case (Cons x xs)
  have ne: "length (filter P xs) \<noteq> Suc (length xs)"
    using length_filter_le [of P xs] by arith
  show ?case
  proof (cases "P x")
    case True
    with Cons show ?thesis by simp
  next
    case False
    with ne show ?thesis by simp
  qed
qed

lemma set_findCommonSpecs:
  assumes "items \<noteq> []"
  shows "set (findCommonSpecs items)
           = {k. \<forall>item \<in> set items. k \<in> fst ` set (Specifications item)}"
proof -
  let ?has = "\<lambda>k item. k \<in> fst ` set (Specifications item)"
  have "set (findCommonSpecs items)
      = {k. (k, length items) \<in> set (count_specs items)}"
    using assms by (auto simp: findCommonSpecs_def Let_def intro: rev_image_eqI)
  also have "\<dots> = {k. k \<in> fst ` set (count_specs items)
                      \<and> length (filter (?has k) items) = length items}"
    by (simp add: mem_alist_iff [OF distinct_count_specs] count_at_count_specs)
  also have "\<dots> = {k. \<forall>item \<in> set items. ?has k item}"
  proof -
    obtain item0 where i0: "item0 \<in> set items" using assms by (cases items) auto
    have "(\<forall>item \<in> set items. ?has k item) \<Longrightarrow> k \<in> fst ` set (count_specs items)" for k
      using i0 unfolding keys_count_specs by blast
    then show ?thesis unfolding length_filter_eq_iff by blast
  qed
  finally show ?thesis .
qed

lemma sorted_findCommonSpecs: "sorted (findCommonSpecs items)"
  by (simp add: findCommonSpecs_def Let_def)

lemma distinct_findCommonSpecs: "distinct (findCommonSpecs items)"
proof -
  have "distinct (map fst (filter P (count_specs items)))" for P
    by (rule distinct_map_filter) (rule distinct_count_specs)
  then show ?thesis by (simp add: findCommonSpecs_def Let_def)
qed

lemma CommonSpecs_generateComparison:
  "items \<noteq> [] \<Longrightarrow> CommonSpecs (generateComparison items) = findCommonSpecs items"
  by (simp add: generateComparison_def Let_def)

lemma findCommonSpecs_keys_only:
  fixes items :: "'v Item list" and items' :: "'w Item list"
  assumes "map (\<lambda>item. fst ` set (Specifications item)) items'
             = map (\<lambda>item. fst ` set (Specifications item)) items"
  shows "findCommonSpecs items' = findCommonSpecs items"
proof (cases "items = []")
  case True
  with assms have "items' = []" by simp
  with True show ?thesis by (simp add: findCommonSpecs_def)
next
  case False
  with assms have ne: "items' \<noteq> []" by auto
  have "set (map (\<lambda>item. fst ` set (Specifications item)) items')
      = set (map (\<lambda>item. fst ` set (Specifications item)) items)"
    using assms by (rule arg_cong)
  then have im: "(\<lambda>item. fst ` set (Specifications item)) ` set items'
      = (\<lambda>item. fst ` set (Specifications item)) ` set items"
    by simp
  have "set (findCommonSpecs items')
      = \<Inter> ((\<lambda>item. fst ` set (Specifications item)) ` set items')"
    unfolding set_findCommonSpecs [OF ne] by blast
  also have "\<dots> = \<Inter> ((\<lambda>item. fst ` set (Specifications item)) ` set items)"
    by (simp only: im)
  also have "\<dots> = set (findCommonSpecs items)"
    unfolding set_findCommonSpecs [OF False] by blast
  finally show ?thesis
    by (rule sorted_distinct_set_unique
        [OF sorted_findCommonSpecs distinct_findCommonSpecs
            sorted_findCommonSpecs distinct_findCommonSpecs])
qed


text \<open>
  Claim C4. For a non-empty list of items, an attribute name is in \<open>common_specs\<close>
  exactly when it is a key of every item's specification map; the list is sorted
  (bytewise lexicographic order) and has no duplicates; and it depends on the keys of
  the maps only: two lists of items with the same key sets, position by position, have
  the same common specifications, whatever the values (and the type of the values).
\<close>

theorem findCommonSpecs_key_of_every_item:
  fixes items :: "'v Item list" and items' :: "'w Item list"
  assumes "items \<noteq> []"
  shows "(k \<in> set (CommonSpecs (generateComparison items))
            \<longleftrightarrow> (\<forall>item \<in> set items. k \<in> dom (map_of (Specifications item))))
         \<and> sorted (CommonSpecs (generateComparison items))
         \<and> distinct (CommonSpecs (generateComparison items))
         \<and> CommonSpecs (generateComparison items) = findCommonSpecs items
         \<and> (map (\<lambda>item. dom (map_of (Specifications item))) items'
               = map (\<lambda>item. dom (map_of (Specifications item))) items
             \<longrightarrow> findCommonSpecs items' = findCommonSpecs items)"
proof -
  have g: "CommonSpecs (generateComparison items) = findCommonSpecs items"
    by (rule CommonSpecs_generateComparison [OF assms])
  have m: "k \<in> set (findCommonSpecs items)
      \<longleftrightarrow> (\<forall>item \<in> set items. k \<in> dom (map_of (Specifications item)))"
    by (simp add: set_findCommonSpecs [OF assms] dom_map_of_conv_image_fst)
  have v: "findCommonSpecs items' = findCommonSpecs items"
    if "map (\<lambda>item. dom (map_of (Specifications item))) items'
               = map (\<lambda>item. dom (map_of (Specifications item))) items"
    by (rule findCommonSpecs_keys_only) (use that in \<open>simp only: dom_map_of_conv_image_fst\<close>)
  show ?thesis
    unfolding g using m v sorted_findCommonSpecs [of items] distinct_findCommonSpecs [of items]
    by blast
qed


text \<open>
  The theorem at items 1 and 2: \<open>color\<close> is a key of both and is the one common
  specification; \<open>size\<close> is missing from item 2 and is not common.
\<close>

theorem findCommonSpecs_key_of_every_item_witness:
  "[item1, item2] \<noteq> []
   \<and> CommonSpecs (generateComparison [item1, item2]) = [''color'']
   \<and> ''color'' \<in> dom (map_of (Specifications item1))
   \<and> ''color'' \<in> dom (map_of (Specifications item2))
   \<and> ''size'' \<notin> set (CommonSpecs (generateComparison [item1, item2]))
   \<and> ''size'' \<notin> dom (map_of (Specifications item2))"
proof -
  have ne: "[item1, item2] \<noteq> []" by simp
  have c: "findCommonSpecs [item1, item2] = [''color'']" by code_simp
  note t = CommonSpecs_generateComparison [OF ne]
  note w = findCommonSpecs_key_of_every_item [OF ne, of _ "[item1, item2]"]
  have a: "CommonSpecs (generateComparison [item1, item2]) = [''color'']"
    using w [of "''color''", THEN conjunct2, THEN conjunct2, THEN conjunct2, THEN conjunct1]
    unfolding c .
  have "''color'' \<in> set (CommonSpecs (generateComparison [item1, item2]))"
    unfolding a by simp
  then have b: "\<forall>item \<in> set [item1, item2]. ''color'' \<in> dom (map_of (Specifications item))"
    using w [of "''color''", THEN conjunct1] by (rule rev_iffD1)
  have d: "''size'' \<notin> dom (map_of (Specifications item2))"
    unfolding item2_def mk_item_def by (simp add: dom_map_of_conv_image_fst)
  have "\<not> (\<forall>item \<in> set [item1, item2]. ''size'' \<in> dom (map_of (Specifications item)))"
    using d by simp
  then have e: "''size'' \<notin> set (CommonSpecs (generateComparison [item1, item2]))"
    using w [of "''size''", THEN conjunct1] by blast
  from b have b1: "''color'' \<in> dom (map_of (Specifications item1))"
    and b2: "''color'' \<in> dom (map_of (Specifications item2))"
    by simp_all
  show ?thesis by (intro conjI ne a b1 b2 e d)
qed

subsection \<open>Unique specifications\<close>

lemma ids_at_add_spec:
  "ids_at (add_spec m k i) k'
     = (if k' = k then AList.update i True (ids_at m k) else ids_at m k')"
  by (simp add: ids_at_def add_spec_def update_conv')

lemma keys_add_spec: "fst ` set (add_spec m k i) = insert k (fst ` set m)"
  by (simp add: add_spec_def dom_update)

lemma distinct_add_spec: "distinct (map fst m) \<Longrightarrow> distinct (map fst (add_spec m k i))"
  by (simp add: add_spec_def distinct_update)

lemma idset_fold_add_spec:
  "fst ` set (ids_at (fold (\<lambda>key m. add_spec m key i) ks m) k)
     = fst ` set (ids_at m k) \<union> (if k \<in> set ks then {i} else {})"
  by (induction ks arbitrary: m) (auto simp: ids_at_add_spec dom_update)

lemma distinct_ids_add_spec:
  "distinct (map fst (ids_at m k)) \<Longrightarrow> distinct (map fst (ids_at (add_spec m a i) k))"
  by (auto simp: ids_at_add_spec intro: distinct_update)

lemma distinct_ids_fold_add_spec:
  "distinct (map fst (ids_at m k)) \<Longrightarrow>
   distinct (map fst (ids_at (fold (\<lambda>key m. add_spec m key i) ks m) k))"
proof (induction ks arbitrary: m)
  case Nil
  then show ?case by simp
next
  case (Cons a ks)
  from Cons.IH [OF distinct_ids_add_spec [OF Cons.prems]] show ?case by simp
qed

lemma distinct_fold_add_spec:
  "distinct (map fst m) \<Longrightarrow> distinct (map fst (fold (\<lambda>key m. add_spec m key i) ks m))"
  by (induction ks arbitrary: m) (auto simp: distinct_add_spec)

lemma idset_fold_items:
  "fst ` set (ids_at (fold (\<lambda>item specMap. fold (\<lambda>key m. add_spec m key (ID item))
               (spec_keys (Specifications item)) specMap) items m) k)
     = fst ` set (ids_at m k)
       \<union> ID ` {item \<in> set items. k \<in> fst ` set (Specifications item)}"
  by (induction items arbitrary: m) (auto simp: idset_fold_add_spec set_spec_keys)

lemma distinct_ids_fold_items:
  "distinct (map fst (ids_at m k)) \<Longrightarrow>
   distinct (map fst (ids_at (fold (\<lambda>item specMap. fold (\<lambda>key m. add_spec m key (ID item))
               (spec_keys (Specifications item)) specMap) items m) k))"
  by (induction items arbitrary: m) (auto simp: distinct_ids_fold_add_spec)

lemma distinct_keys_fold_items:
  "distinct (map fst m) \<Longrightarrow>
   distinct (map fst (fold (\<lambda>item specMap. fold (\<lambda>key m. add_spec m key (ID item))
               (spec_keys (Specifications item)) specMap) items m))"
  by (induction items arbitrary: m) (auto simp: distinct_fold_add_spec)

lemma idset_build_specMap:
  "fst ` set (ids_at (build_specMap items) k)
     = ID ` {item \<in> set items. k \<in> fst ` set (Specifications item)}"
  by (simp add: build_specMap_def idset_fold_items) (simp add: ids_at_def)

lemma distinct_ids_build_specMap: "distinct (map fst (ids_at (build_specMap items) k))"
  unfolding build_specMap_def by (rule distinct_ids_fold_items) (simp add: ids_at_def)

lemma distinct_build_specMap: "distinct (map fst (build_specMap items))"
  unfolding build_specMap_def by (rule distinct_keys_fold_items) simp

lemma distinct_singleton_iff:
  "distinct xs \<Longrightarrow> xs = [x] \<longleftrightarrow> set xs = {x}"
  by (cases xs; cases "tl xs") auto

lemma ids_build_specMap_single:
  "map fst (ids_at (build_specMap items) k) = [x]
     \<longleftrightarrow> ID ` {item \<in> set items. k \<in> fst ` set (Specifications item)} = {x}"
  using distinct_singleton_iff [OF distinct_ids_build_specMap, of items k x]
  by (simp add: idset_build_specMap)


lemma unique_of_append_unique:
  "unique_of (append_unique u y spec) x
     = (if x = y then unique_of u y @ [spec] else unique_of u x)"
  by (simp add: unique_of_def append_unique_def update_conv')


lemma distinct_append_unique:
  "distinct (map fst u) \<Longrightarrow> distinct (map fst (append_unique u y spec))"
  by (simp add: append_unique_def distinct_update)

lemma length_one_iff: "length ids = 1 \<longleftrightarrow> (\<exists>p. ids = [p])"
  by (cases ids) auto

lemma unique_of_step:
  "unique_of (if length ids = 1
              then fold (\<lambda>id' u'. append_unique u' id' spec) (map fst ids) u else u) x
     = unique_of u x @ (if map fst ids = [x] then [spec] else [])"
proof (cases "length ids = 1")
  case True
  then obtain p where "ids = [p]" unfolding length_one_iff ..
  then show ?thesis by (auto simp: unique_of_append_unique)
next
  case False
  then have "map fst ids \<noteq> [x]" by (cases ids) auto
  with False show ?thesis by simp
qed


lemma distinct_step:
  assumes "distinct (map fst u)"
  shows "distinct (map fst (if length ids = 1
              then fold (\<lambda>id' u'. append_unique u' id' spec) (map fst ids) u else u))"
proof (cases "length ids = 1")
  case True
  then obtain p where "ids = [p]" unfolding length_one_iff ..
  then show ?thesis using assms by (simp add: distinct_append_unique)
next
  case False
  with assms show ?thesis by simp
qed

lemma unique_of_collect_unique:
  "unique_of (collect_unique ps u) x
     = unique_of u x @ map fst (filter (\<lambda>(spec, ids). map fst ids = [x]) ps)"
proof (induction ps arbitrary: u)
  case Nil
  show ?case by (simp add: collect_unique_def)
next
  case (Cons p ps)
  obtain spec ids where p: "p = (spec, ids)" by (cases p)
  have "collect_unique (p # ps) u
      = collect_unique ps (if length ids = 1
              then fold (\<lambda>id' u'. append_unique u' id' spec) (map fst ids) u else u)"
    by (simp add: collect_unique_def p)
  then show ?case
    by (simp only: Cons.IH unique_of_step) (simp add: p)
qed


lemma distinct_collect_unique:
  "distinct (map fst u) \<Longrightarrow> distinct (map fst (collect_unique ps u))"
proof (induction ps arbitrary: u)
  case Nil
  then show ?case by (simp add: collect_unique_def)
next
  case (Cons p ps)
  obtain spec ids where p: "p = (spec, ids)" by (cases p)
  have e: "collect_unique (p # ps) u
      = collect_unique ps (if length ids = 1
              then fold (\<lambda>id' u'. append_unique u' id' spec) (map fst ids) u else u)"
    by (simp add: collect_unique_def p)
  show ?case
    unfolding e by (rule Cons.IH [OF distinct_step [OF Cons.prems]])
qed


lemma map_of_findUniqueSpecs:
  "map_of (findUniqueSpecs items) x
     = map_option sort (map_of (collect_unique (build_specMap items) []) x)"
  by (simp add: findUniqueSpecs_def Let_def map_of_map)

lemma keys_findUniqueSpecs:
  "map fst (findUniqueSpecs items) = map fst (collect_unique (build_specMap items) [])"
  by (simp add: findUniqueSpecs_def Let_def case_prod_unfold comp_def)

lemma unique_of_findUniqueSpecs:
  "unique_of (findUniqueSpecs items) x
     = sort (map fst (filter (\<lambda>(spec, ids). map fst ids = [x]) (build_specMap items)))"
proof -
  have "unique_of (findUniqueSpecs items) x
      = sort (unique_of (collect_unique (build_specMap items) []) x)"
    by (simp add: unique_of_def map_of_findUniqueSpecs split: option.splits)
  also have "unique_of (collect_unique (build_specMap items) []) x
      = map fst (filter (\<lambda>(spec, ids). map fst ids = [x]) (build_specMap items))"
    by (simp add: unique_of_collect_unique) (simp add: unique_of_def)
  finally show ?thesis .
qed

lemma entry_build_specMap_iff:
  "(\<exists>ids. (k, ids) \<in> set (build_specMap items) \<and> map fst ids = [x])
     \<longleftrightarrow> map fst (ids_at (build_specMap items) k) = [x]"
proof
  assume "\<exists>ids. (k, ids) \<in> set (build_specMap items) \<and> map fst ids = [x]"
  then obtain ids where i: "(k, ids) \<in> set (build_specMap items)" "map fst ids = [x]"
    by (elim exE conjE)
  from i(1) have "map_of (build_specMap items) k = Some ids"
    by (simp add: distinct_build_specMap)
  with i(2) show "map fst (ids_at (build_specMap items) k) = [x]" by (simp add: ids_at_def)
next
  assume r: "map fst (ids_at (build_specMap items) k) = [x]"
  then obtain ids where m: "map_of (build_specMap items) k = Some ids"
    by (cases "map_of (build_specMap items) k") (auto simp: ids_at_def)
  with r have "map fst ids = [x]" by (simp add: ids_at_def)
  moreover from m have "(k, ids) \<in> set (build_specMap items)" by (rule map_of_SomeD)
  ultimately show "\<exists>ids. (k, ids) \<in> set (build_specMap items) \<and> map fst ids = [x]"
    by (intro exI conjI)
qed

lemma mem_unique_of_findUniqueSpecs:
  "k \<in> set (unique_of (findUniqueSpecs items) x)
     \<longleftrightarrow> ID ` {item \<in> set items. k \<in> fst ` set (Specifications item)} = {x}"
proof -
  have "k \<in> set (unique_of (findUniqueSpecs items) x)
      \<longleftrightarrow> (\<exists>ids. (k, ids) \<in> set (build_specMap items) \<and> map fst ids = [x])"
    by (auto simp: unique_of_findUniqueSpecs intro: rev_image_eqI)
  then show ?thesis
    by (simp only: entry_build_specMap_iff ids_build_specMap_single)
qed



lemma distinct_keys_findUniqueSpecs: "distinct (map fst (findUniqueSpecs items))"
  unfolding keys_findUniqueSpecs by (rule distinct_collect_unique) simp



lemma UniqueSpecs_generateComparison:
  "items \<noteq> [] \<Longrightarrow> UniqueSpecs (generateComparison items) = findUniqueSpecs items"
  by (simp add: generateComparison_def Let_def)






subsection \<open>Common and unique specifications are disjoint\<close>

lemma common_unique_disjoint:
  assumes "2 \<le> length items" and "distinct (map ID items)"
  shows "set (findCommonSpecs items) \<inter> set (unique_of (findUniqueSpecs items) x) = {}"
proof (rule ccontr)
  assume "set (findCommonSpecs items) \<inter> set (unique_of (findUniqueSpecs items) x) \<noteq> {}"
  then obtain k where c: "k \<in> set (findCommonSpecs items)"
    and u: "k \<in> set (unique_of (findUniqueSpecs items) x)"
    by auto
  from assms(1) have ne: "items \<noteq> []" by auto
  from c have "\<forall>item \<in> set items. k \<in> fst ` set (Specifications item)"
    by (simp add: set_findCommonSpecs [OF ne])
  then have "{item \<in> set items. k \<in> fst ` set (Specifications item)} = set items" by auto
  with u have "ID ` set items = {x}" by (simp add: mem_unique_of_findUniqueSpecs)
  then have "card (set (map ID items)) = 1" by simp
  moreover have "card (set (map ID items)) = length (map ID items)"
    by (rule distinct_card [OF assms(2)])
  ultimately show False using assms(1) by simp
qed

text \<open>
  Two successful comparisons whose \<open>common_specs\<close> and \<open>unique_specs\<close> overlap: the
  request \<open>[1,1]\<close>, which resolves to the single item 1 (every key of one item is both
  common and unique), and a repository that answers \<open>[1,2]\<close> with two items carrying
  the identifier 1.
\<close>

theorem CompareItems_common_and_unique_overlap:
  "CompareItems (MockItemRepository (Inr []) (Inl ErrNotFound) (Inr [item1])) () [1, 1]
     = ([CallGetByIDs [1]], Inr \<lparr>Items = [item1], Comparison = generateComparison [item1]\<rparr>)
   \<and> CommonSpecs (generateComparison [item1]) = [''color'', ''size'']
   \<and> UniqueSpecs (generateComparison [item1]) = [(1, [''color'', ''size''])]
   \<and> CompareItems (MockItemRepository (Inr []) (Inl ErrNotFound) (Inr [item1, item1_again])) () [1, 2]
     = ([CallGetByIDs [1, 2]],
        Inr \<lparr>Items = [item1, item1_again],
             Comparison = generateComparison [item1, item1_again]\<rparr>)
   \<and> CommonSpecs (generateComparison [item1, item1_again]) = [''color'']
   \<and> UniqueSpecs (generateComparison [item1, item1_again]) = [(1, [''color'', ''size''])]"
proof -
  have a: "findCommonSpecs [item1] = [''color'', ''size'']" by code_simp
  have b: "findUniqueSpecs [item1] = [(1, [''color'', ''size''])]" by code_simp
  have c: "findCommonSpecs [item1, item1_again] = [''color'']" by code_simp
  have d: "findUniqueSpecs [item1, item1_again] = [(1, [''color'', ''size''])]" by code_simp
  have e: "CompareItems (MockItemRepository (Inr []) (Inl ErrNotFound) (Inr [item1])) () [1, 1]
     = ([CallGetByIDs [1]], Inr \<lparr>Items = [item1], Comparison = generateComparison [item1]\<rparr>)"
    by (simp add: CompareItems_def uniqueIDs_def MockItemRepository_def)
  have f: "CompareItems (MockItemRepository (Inr []) (Inl ErrNotFound) (Inr [item1, item1_again])) () [1, 2]
     = ([CallGetByIDs [1, 2]],
        Inr \<lparr>Items = [item1, item1_again],
             Comparison = generateComparison [item1, item1_again]\<rparr>)"
    by (simp add: CompareItems_def uniqueIDs_def MockItemRepository_def)
  have a': "CommonSpecs (generateComparison [item1]) = [''color'', ''size'']"
    by (simp add: CommonSpecs_generateComparison a)
  have b': "UniqueSpecs (generateComparison [item1]) = [(1, [''color'', ''size''])]"
    by (simp add: UniqueSpecs_generateComparison b)
  have c': "CommonSpecs (generateComparison [item1, item1_again]) = [''color'']"
    by (simp add: CommonSpecs_generateComparison c)
  have d': "UniqueSpecs (generateComparison [item1, item1_again]) = [(1, [''color'', ''size''])]"
    by (simp add: UniqueSpecs_generateComparison d)
  show ?thesis by (intro conjI e a' b' f c' d')
qed

text \<open>
  Claim C2, for at least two distinct requested identifiers and returned items with
  pairwise distinct identifiers. In every such successful comparison no attribute name
  is both in \<open>common_specs\<close> and in the \<open>unique_specs\<close> list of an identifier.
\<close>

theorem CompareItems_common_unique_disjoint:
  assumes "CompareItems repo ctx ids = (calls, Inr resp)"
    and "2 \<le> card (set ids)"
    and "distinct (map ID (Items resp))"
  shows "set (CommonSpecs (Comparison resp))
           \<inter> set (unique_of (UniqueSpecs (Comparison resp)) x) = {}
         \<and> (map_of (UniqueSpecs (Comparison resp)) x = Some specs
              \<longrightarrow> set (CommonSpecs (Comparison resp)) \<inter> set specs = {})"
proof -
  let ?items = "Items resp"
  have len: "length ?items = card (set ids)"
    using CompareItems_success(4) [OF assms(1)] by (simp add: length_uniqueIDs)
  with assms(2) have two: "2 \<le> length ?items" by simp
  then have ne: "?items \<noteq> []" by auto
  have cmp: "Comparison resp = generateComparison ?items"
    by (rule CompareItems_success(3) [OF assms(1)])
  have dj: "set (findCommonSpecs ?items) \<inter> set (unique_of (findUniqueSpecs ?items) x) = {}"
    by (rule common_unique_disjoint [OF two assms(3)])
  have "set (findCommonSpecs ?items) \<inter> set specs = {}"
    if "map_of (findUniqueSpecs ?items) x = Some specs"
    using dj that by (simp add: unique_of_def)
  with dj show ?thesis
    unfolding cmp CommonSpecs_generateComparison [OF ne] UniqueSpecs_generateComparison [OF ne]
    by simp
qed

text \<open>
  The theorem at the request \<open>[1,2]\<close> answered with items 1 and 2.
\<close>

theorem CompareItems_common_unique_disjoint_witness:
  "CompareItems (MockItemRepository (Inr []) (Inl ErrNotFound) (Inr [item1, item2])) () [1, 2]
     = ([CallGetByIDs [1, 2]],
        Inr \<lparr>Items = [item1, item2], Comparison = generateComparison [item1, item2]\<rparr>)
   \<and> 2 \<le> card (set [1, 2 :: int])
   \<and> distinct (map ID [item1, item2])
   \<and> CommonSpecs (generateComparison [item1, item2]) = [''color'']
   \<and> UniqueSpecs (generateComparison [item1, item2]) = [(1, [''size'']), (2, [''brand''])]
   \<and> set (CommonSpecs (generateComparison [item1, item2]))
        \<inter> set (unique_of (UniqueSpecs (generateComparison [item1, item2])) 1) = {}"
proof -
  let ?resp = "\<lparr>Items = [item1, item2], Comparison = generateComparison [item1, item2]\<rparr>"
  have e: "CompareItems (MockItemRepository (Inr []) (Inl ErrNotFound) (Inr [item1, item2])) () [1, 2]
     = ([CallGetByIDs [1, 2]], Inr ?resp)"
    by (simp add: CompareItems_def uniqueIDs_def MockItemRepository_def)
  have n: "2 \<le> card (set [1, 2 :: int])" unfolding card_set by simp
  have d: "distinct (map ID [item1, item2])"
    by (simp add: item1_def item2_def mk_item_def)
  have d': "distinct (map ID (Items ?resp))" using d by simp
  have c: "findCommonSpecs [item1, item2] = [''color'']" by code_simp
  have u: "findUniqueSpecs [item1, item2] = [(1, [''size'']), (2, [''brand''])]" by code_simp
  have c': "CommonSpecs (generateComparison [item1, item2]) = [''color'']"
    by (simp add: CommonSpecs_generateComparison c)
  have u': "UniqueSpecs (generateComparison [item1, item2]) = [(1, [''size'']), (2, [''brand''])]"
    by (simp add: UniqueSpecs_generateComparison u)
  have j: "set (CommonSpecs (generateComparison [item1, item2]))
        \<inter> set (unique_of (UniqueSpecs (generateComparison [item1, item2])) 1) = {}"
    using CompareItems_common_unique_disjoint [OF e n d', of 1 "[]", THEN conjunct1] by simp
  show ?thesis by (intro conjI e n d c' u' j)
qed

end
